theory Spec2Isabelle
  imports Main "HOL-Library.Word"
begin

unbundle bit_operations_syntax

section \<open>The supervisor \<open>ign-gazebo\<close>: data model\<close>

text \<open>
  The program is the \<open>main\<close> of the \<open>ign-gazebo\<close> launcher: it parses its command line,
  forks the server and the GUI, installs a signal callback that calls \<open>KillProcess\<close> on
  the children, blocks in \<open>wait\<close> and derives its return value from the status of the
  child that \<open>wait\<close> reaped.

  The model is the supervisor (parent) process. Every system call it makes is appended
  to a trace, and every answer of the operating system is read from an environment
  \<open>os_env\<close>, so that a theorem quantified over the environment holds for every behaviour
  of the children.
\<close>

type_synonym pid_t = int
type_synonym int32 = "32 word"

datatype signal = SIGINT | SIGKILL

text \<open>
  The three local \<open>bool\<close>s of \<open>main\<close> that the signal callback captures by reference and
  that \<open>KillProcess\<close> receives as \<open>bool &_killed\<close>: \<open>guiKilled\<close>, \<open>serverKilled\<close>,
  \<open>sigKilled\<close>.
\<close>

datatype flag = GuiKilled | ServerKilled | SigKilled

text \<open>An element of a \<open>char **\<close> array: not yet written, \<open>nullptr\<close>, or a C string.\<close>

datatype cptr = Uninit | Nullptr | Ptr string

text \<open>
  What the supervisor does, in the order it does it.
  \<^item> \<open>Spawn file argv pid\<close>: \<open>fork()\<close> returned \<open>pid\<close> to the supervisor, and the child
    called \<open>setpgid\<close> and \<open>execvp(file, argv)\<close>.
  \<^item> \<open>Kill pid sig\<close>: \<open>kill(pid, sig)\<close>.
  \<^item> \<open>Waitpid pid\<close>: \<open>waitpid(pid, &status, WNOHANG)\<close>.
  \<^item> \<open>Sleep\<close>: \<open>Time::Sleep(Time(sleepSecs))\<close>, one millisecond.
  \<^item> \<open>Wait\<close>: the blocking \<open>wait(&child_exit_status)\<close>.
  \<^item> \<open>Raise sig\<close>: \<open>std::raise(sig)\<close>.
  \<^item> \<open>Write x v\<close>: the value \<open>v\<close> is stored in the flag \<open>x\<close> (its initialisation included).
  \<^item> \<open>HelpText\<close>, \<open>VersionText\<close>: the output of \<open>Help()\<close> and \<open>Version()\<close>.
  \<^item> \<open>SetVerbosity\<close>, \<open>LogMsg\<close>, \<open>LogErr\<close>, \<open>LogDbg\<close>: the console calls.
\<close>

datatype event =
    HelpText
  | VersionText
  | SetVerbosity int32
  | LogMsg
  | Spawn cptr "cptr list" pid_t
  | Kill pid_t signal
  | Waitpid pid_t
  | Sleep
  | LogErr string
  | Wait
  | Raise signal
  | Write flag bool
  | LogDbg

text \<open>
  The answers of the operating system.
  \<^item> \<open>fork_server\<close>, \<open>fork_gui\<close>: what the two \<open>fork()\<close> calls return to the supervisor.
  \<^item> \<open>stack_serverPid\<close>, \<open>stack_guiPid\<close>, \<open>stack_status\<close>: the indeterminate contents of
    \<open>serverPid\<close>, \<open>guiPid\<close> and \<open>child_exit_status\<close> where the code leaves them
    uninitialised.
  \<^item> \<open>waitpid_ret k pid\<close>: what the \<open>k\<close>-th \<open>waitpid\<close> call of the run returns when it is
    called on \<open>pid\<close>.
  \<^item> \<open>wait_ret\<close>, \<open>wait_status\<close>: what \<open>wait\<close> returns, and the status it stores
    (\<open>None\<close> when it stores none, as on failure).
  \<^item> \<open>ext_signals j\<close>: how many times a signal from outside runs the callback at the
    \<open>j\<close>-th point where \<open>main\<close> can be interrupted after the callback is registered
    (0: while blocked in \<open>wait\<close>; 1: after \<open>wait\<close>; 2: before the test of \<open>sigKilled\<close>;
    3: before returning).
\<close>

record os_env =
  fork_server :: pid_t
  fork_gui :: pid_t
  stack_serverPid :: pid_t
  stack_guiPid :: pid_t
  stack_status :: int32
  waitpid_ret :: "nat \<Rightarrow> pid_t \<Rightarrow> pid_t"
  wait_ret :: pid_t
  wait_status :: "int32 option"
  ext_signals :: "nat \<Rightarrow> nat"

text \<open>
  The state of the supervisor: the three flags, the trace so far, and the number of
  \<open>waitpid\<close> calls made so far (the index of the next answer of \<open>waitpid_ret\<close>).
\<close>

record sup_state =
  flags :: "flag \<Rightarrow> bool"
  trace :: "event list"
  polls :: nat

definition emit :: "event \<Rightarrow> sup_state \<Rightarrow> sup_state" where
  "emit e st = st\<lparr>trace := trace st @ [e]\<rparr>"

definition assign :: "flag \<Rightarrow> bool \<Rightarrow> sup_state \<Rightarrow> sup_state" where
  "assign x v st = st\<lparr>flags := (flags st)(x := v), trace := trace st @ [Write x v]\<rparr>"

definition sys_waitpid :: "pid_t \<Rightarrow> sup_state \<Rightarrow> sup_state" where
  "sys_waitpid pid st = st\<lparr>trace := trace st @ [Waitpid pid], polls := Suc (polls st)\<rparr>"

section \<open>\<open>VerbosityValidator\<close>\<close>

text \<open>\<open>return _value >= 0 && _value <= 4;\<close> on a C \<open>int\<close>.\<close>

definition VerbosityValidator :: "string \<Rightarrow> int32 \<Rightarrow> bool" where
  "VerbosityValidator flagname value = (0 \<le> sint value \<and> sint value \<le> 4)"

section \<open>\<open>KillProcess\<close>\<close>

text \<open>
  The \<open>for\<close> loop of \<open>KillProcess\<close>. \<open>n\<close> is the bound
  \<open>(unsigned int)(_timeout / sleepSecs)\<close> and \<open>i\<close> the loop counter; \<open>kf\<close> is the flag
  that \<open>_killed\<close> refers to. \<open>break\<close> leaves the loop with the current state.
\<close>

function KillProcess_loop ::
  "os_env \<Rightarrow> pid_t \<Rightarrow> flag \<Rightarrow> nat \<Rightarrow> nat \<Rightarrow> sup_state \<Rightarrow> sup_state" where
  "KillProcess_loop E pid kf n i st =
     (if i < n then
        (if flags st kf then st
         else if waitpid_ret E (polls st) pid = pid
           then assign kf True (sys_waitpid pid st)
           else KillProcess_loop E pid kf n (Suc i) (emit Sleep (sys_waitpid pid st)))
      else st)"
  by pat_completeness auto
termination
  by (relation "measure (\<lambda>(E, pid, kf, n, i, st). n - i)") auto

declare KillProcess_loop.simps [simp del]

text \<open>
  \<open>KillProcess(_pid, _name, _timeout, _killed)\<close>: the interrupt is sent first, then the
  loop polls, then \<open>SIGKILL\<close> follows the error message if the flag is still false.
  The floating-point division is not modelled: the function takes the loop bound \<open>n\<close>.
\<close>

definition KillProcess ::
  "os_env \<Rightarrow> pid_t \<Rightarrow> string \<Rightarrow> nat \<Rightarrow> flag \<Rightarrow> sup_state \<Rightarrow> sup_state" where
  "KillProcess E pid name n kf st =
     (let st1 = emit (Kill pid SIGINT) st;
          st2 = KillProcess_loop E pid kf n 0 st1
      in if \<not> flags st2 kf
         then emit (Kill pid SIGKILL) (emit (LogErr name) st2)
         else st2)"

text \<open>
  The bound for the timeout \<open>5.0\<close> that the callback passes: \<open>5.0 / 0.001\<close> is
  \<open>5000.0\<close> in IEEE double arithmetic, so the loop runs at most 5000 times.
\<close>

definition timeout_iterations :: nat where
  "timeout_iterations = 5000"

section \<open>The exit status macros\<close>

text \<open>
  \<open>WIFEXITED\<close> and \<open>WEXITSTATUS\<close> come from the system header \<open><sys/wait.h>\<close>. They
  are written here as the C library defines them on the status word:
  \<open>WIFEXITED(s)\<close> is \<open>((s) & 0x7f) == 0\<close>, a C truth value, and \<open>WEXITSTATUS(s)\<close> is
  \<open>((s) & 0xff00) >> 8\<close>.
\<close>

definition WIFEXITED :: "int32 \<Rightarrow> int32" where
  "WIFEXITED s = (if s AND 0x7f = 0 then 1 else 0)"

definition WEXITSTATUS :: "int32 \<Rightarrow> int32" where
  "WEXITSTATUS s = drop_bit 8 (s AND 0xff00)"




section \<open>The command line\<close>

text \<open>
  The flags library (gflags) is not part of the repository. The model takes what it
  reads from the command line as a record: the supervisor's argument vector, the
  values of the flags the code tests, what \<open>GetCommandLineFlagInfo\<close> reports as
  \<open>current_value\<close> of \<open>help\<close> and \<open>version\<close>, and \<open>is_default\<close> of \<open>verbose\<close> and \<open>v\<close>.
\<close>

record cmdline =
  argv :: "string list"
  FLAGS_h :: bool
  help_value :: string
  version_value :: string
  FLAGS_verbose :: int32
  verbose_is_default :: bool
  FLAGS_v :: int32
  v_is_default :: bool
  FLAGS_s :: bool
  FLAGS_g :: bool

datatype error = ValidationFailure

text \<open>
  \<open>gflags::ParseCommandLineNonHelpFlags\<close> after both \<open>RegisterFlagValidator\<close> calls: the
  library calls the validator of a flag on the value the command line gives it, and a
  value the validator refuses ends the program inside the parse (an error message and
  \<open>exit(1)\<close>). Only this contract of the library is modelled.
\<close>

definition ParseCommandLineNonHelpFlags :: "cmdline \<Rightarrow> error + cmdline" where
  "ParseCommandLineNonHelpFlags C =
     (if VerbosityValidator ''verbose'' (FLAGS_verbose C) \<and> VerbosityValidator ''v'' (FLAGS_v C)
      then Inr C else Inl ValidationFailure)"

section \<open>\<open>main\<close>\<close>

text \<open>
  Lines 135 to 146: \<open>new char*[_argc+1]\<close>, element 0 the executable's name, elements
  \<open>1 .. _argc-1\<close> copied by the loop, element \<open>_argc\<close> the null pointer. The writes
  happen in this order, so for \<open>_argc = 0\<close> the null pointer overwrites the name.
\<close>

definition child_argv :: "string \<Rightarrow> string list \<Rightarrow> cptr list" where
  "child_argv name av =
     (let argc = length av;
          a0 = replicate (argc + 1) Uninit;
          signal_status_low_bits = a0[0 := Ptr name];
          signal_number_nonzero = fold (\<lambda>i a. a[i := Ptr (av ! i)]) [1..<argc] signal_status_low_bits
      in signal_number_nonzero[argc := Nullptr])"

definition init_state :: sup_state where
  "init_state = \<lparr>flags = (\<lambda>x. False), trace = [], polls = 0\<rparr>"

text \<open>
  Lines 206 to 234, seen from the supervisor: the server is forked unless \<open>-g\<close> is set,
  the GUI unless \<open>-s\<close> is set. A pid variable that is not assigned keeps its
  indeterminate value. The result is \<open>((serverPid, guiPid), state)\<close>.
\<close>

definition launch :: "os_env \<Rightarrow> cmdline \<Rightarrow> sup_state \<Rightarrow> (pid_t \<times> pid_t) \<times> sup_state" where
  "launch E C st =
     (let argvServer = child_argv ''ign-gazebo-server'' (argv C);
          argvGui = child_argv ''ign-gazebo-gui'' (argv C);
          (serverPid, st1) =
             (if \<not> FLAGS_g C
              then (fork_server E, emit (Spawn (argvServer ! 0) argvServer (fork_server E)) st)
              else (stack_serverPid E, st));
          (guiPid, st2) =
             (if \<not> FLAGS_s C
              then (fork_gui E, emit (Spawn (argvGui ! 0) argvGui (fork_gui E)) st1)
              else (stack_guiPid E, st1))
      in ((serverPid, guiPid), st2))"

text \<open>The callback given to \<open>sigHandler.AddCallback\<close> (lines 241 to 248).\<close>

definition sig_callback ::
  "os_env \<Rightarrow> cmdline \<Rightarrow> pid_t \<Rightarrow> pid_t \<Rightarrow> sup_state \<Rightarrow> sup_state" where
  "sig_callback E C guiPid serverPid st =
     (let st1 = assign SigKilled True st;
          st2 = (if \<not> FLAGS_s C
                 then KillProcess E guiPid ''ign-gazebo-gui'' timeout_iterations GuiKilled st1
                 else st1);
          st3 = (if \<not> FLAGS_g C
                 then KillProcess E serverPid ''ign-gazebo-server'' timeout_iterations ServerKilled st2
                 else st2)
      in st3)"

text \<open>
  A signal from outside runs the callback on the supervisor's own thread, between two
  steps of \<open>main\<close>; \<open>k\<close> signals run it \<open>k\<close> times.
\<close>

definition interrupts :: "nat \<Rightarrow> (sup_state \<Rightarrow> sup_state) \<Rightarrow> sup_state \<Rightarrow> sup_state" where
  "interrupts k cb st = (cb ^^ k) st"

text \<open>
  Lines 236 to 274. The \<open>Wait\<close> event marks the return of \<open>wait\<close>. \<open>std::raise\<close> runs
  the callback before it returns. The result is \<open>(returnValue, state)\<close>.
\<close>

definition supervise ::
  "os_env \<Rightarrow> cmdline \<Rightarrow> pid_t \<Rightarrow> pid_t \<Rightarrow> sup_state \<Rightarrow> int \<times> sup_state" where
  "supervise E C serverPid guiPid st =
     (let cb = sig_callback E C guiPid serverPid;
          st1 = assign SigKilled False (assign ServerKilled False (assign GuiKilled False st));
          st2 = emit Wait (interrupts (ext_signals E 0) cb st1);
          deadChild = wait_ret E;
          child_exit_status = (case wait_status E of Some w \<Rightarrow> w | None \<Rightarrow> stack_status E);
          st3 = interrupts (ext_signals E 1) cb st2;
          returnValue =
            (if WIFEXITED child_exit_status = 0 \<or> WEXITSTATUS child_exit_status \<noteq> 0
             then - 1 else 0);
          st4 = (if deadChild = guiPid then assign GuiKilled True st3
                 else if deadChild = serverPid then assign ServerKilled True st3
                 else st3);
          st5 = interrupts (ext_signals E 2) cb st4;
          st6 = (if \<not> flags st5 SigKilled then cb (emit (Raise SIGINT) st5) else st5);
          st7 = interrupts (ext_signals E 3) cb st6
      in (returnValue, emit LogDbg st7))"

text \<open>
  \<open>main\<close>: the parse, the help and version exits, then the launch and the supervision.
  The result is the return value (or the failure of the parse) and the final state.
\<close>

definition main :: "os_env \<Rightarrow> cmdline \<Rightarrow> (error + int) \<times> sup_state" where
  "main E C0 =
     (case ParseCommandLineNonHelpFlags C0 of
        Inl e \<Rightarrow> (Inl e, init_state)
      | Inr C \<Rightarrow>
          (let showHelp = (FLAGS_h C \<or> help_value C = ''true'');
               showVersion = (version_value C = ''true'');
               verbose = (if verbose_is_default C
                          then (if \<not> v_is_default C then FLAGS_v C else 1)
                          else FLAGS_verbose C)
           in if showHelp then (Inr 0, emit HelpText init_state)
              else if showVersion then (Inr 0, emit VersionText init_state)
              else
                (let st1 = emit LogMsg (emit (SetVerbosity verbose) init_state);
                     ((serverPid, guiPid), st2) = launch E C st1;
                     (returnValue, st3) = supervise E C serverPid guiPid st2
                 in (Inr returnValue, st3))))"

section \<open>Reading a trace\<close>

fun is_spawn :: "event \<Rightarrow> bool" where
  "is_spawn (Spawn f a p) = True"
| "is_spawn e = False"

text \<open>The values stored in the flag \<open>x\<close>, in order, the initialisation first.\<close>

fun writes :: "flag \<Rightarrow> event list \<Rightarrow> bool list" where
  "writes x [] = []"
| "writes x (Write y v # es) = (if y = x then v # writes x es else writes x es)"
| "writes x (e # es) = writes x es"

text \<open>The flags after the events \<open>es\<close>, starting from the flags \<open>f\<close>.\<close>

definition apply_event :: "event \<Rightarrow> (flag \<Rightarrow> bool) \<Rightarrow> (flag \<Rightarrow> bool)" where
  "apply_event e f = (case e of Write x v \<Rightarrow> f(x := v) | _ \<Rightarrow> f)"

definition replay :: "event list \<Rightarrow> (flag \<Rightarrow> bool) \<Rightarrow> (flag \<Rightarrow> bool)" where
  "replay es f = fold apply_event es f"

text \<open>Events of the shutdown: no child is spawned and no flag is set to false.\<close>

fun calm :: "event \<Rightarrow> bool" where
  "calm (Spawn f a p) = False"
| "calm (Write x v) = v"
| "calm e = True"

text \<open>
  The command lines on which \<open>main\<close> reaches the launch: both verbosity values pass
  the validator, and neither help nor the version is asked for.
\<close>

definition runs_gazebo :: "cmdline \<Rightarrow> bool" where
  "runs_gazebo C =
     (VerbosityValidator ''verbose'' (FLAGS_verbose C) \<and> VerbosityValidator ''v'' (FLAGS_v C)
      \<and> FLAGS_h C = False \<and> help_value C \<noteq> ''true'' \<and> version_value C \<noteq> ''true'')"

text \<open>Sample inputs: a command line without options and two children that exit at once.\<close>

definition plain_cmdline :: cmdline where
  "plain_cmdline =
     \<lparr>argv = [''ign-gazebo'', ''-f'', ''shapes.sdf''], FLAGS_h = False, help_value = ''false'',
      version_value = ''false'', FLAGS_verbose = 1, verbose_is_default = True,
      FLAGS_v = 1, v_is_default = True, FLAGS_s = False, FLAGS_g = False\<rparr>"

definition prompt_env :: os_env where
  "prompt_env =
     \<lparr>fork_server = 101, fork_gui = 102, stack_serverPid = 0, stack_guiPid = 0,
      stack_status = 0, waitpid_ret = (\<lambda>k p. p), wait_ret = 101, wait_status = Some 0,
      ext_signals = (\<lambda>j. 0)\<rparr>"

text \<open>A child that no \<open>waitpid\<close> call ever reports as exited.\<close>

definition stubborn_env :: os_env where
  "stubborn_env = prompt_env\<lparr>waitpid_ret := (\<lambda>k p. 0)\<rparr>"

text \<open>
  \<open>shutdown_ext st st'\<close>: the state \<open>st'\<close> follows \<open>st\<close> by events of the shutdown only, and
  its flags are the flags of \<open>st\<close> after these events.
\<close>

abbreviation shutdown_ext :: "sup_state \<Rightarrow> sup_state \<Rightarrow> bool" where
  "shutdown_ext st st' \<equiv>
     (\<exists>es. trace st' = trace st @ es \<and> list_all calm es \<and> flags st' = replay es (flags st))"

section \<open>Projections of the primitive steps\<close>

lemma emit_simps [simp]:
  "trace (emit e st) = trace st @ [e]"
  "flags (emit e st) = flags st"
  "polls (emit e st) = polls st"
  by (simp_all add: emit_def)

lemma assign_simps [simp]:
  "trace (assign x v st) = trace st @ [Write x v]"
  "flags (assign x v st) = (flags st)(x := v)"
  "polls (assign x v st) = polls st"
  by (simp_all add: assign_def)

lemma sys_waitpid_simps [simp]:
  "trace (sys_waitpid pid st) = trace st @ [Waitpid pid]"
  "flags (sys_waitpid pid st) = flags st"
  "polls (sys_waitpid pid st) = Suc (polls st)"
  by (simp_all add: sys_waitpid_def)

lemma apply_event_simps [simp]:
  "apply_event (Write x v) f = f(x := v)"
  "apply_event HelpText f = f"
  "apply_event VersionText f = f"
  "apply_event (SetVerbosity w) f = f"
  "apply_event LogMsg f = f"
  "apply_event (Spawn c a p) f = f"
  "apply_event (Kill p sg) f = f"
  "apply_event (Waitpid p) f = f"
  "apply_event Sleep f = f"
  "apply_event (LogErr s) f = f"
  "apply_event Wait f = f"
  "apply_event (Raise sg) f = f"
  "apply_event LogDbg f = f"
  by (simp_all add: apply_event_def)

lemma replay_Nil [simp]: "replay [] f = f"
  by (simp add: replay_def)

lemma replay_Cons [simp]: "replay (e # es) f = replay es (apply_event e f)"
  by (simp add: replay_def)

lemma replay_append: "replay (es @ es') f = replay es' (replay es f)"
  by (simp add: replay_def)

lemma replay_calm:
  "list_all calm es \<Longrightarrow> replay es f x = (f x \<or> Write x True \<in> set es)"
proof (induction es arbitrary: f)
  case (Cons e es)
  then show ?case by (cases e) (auto simp: apply_event_def)
qed simp

lemma writes_append: "writes x (es @ es') = writes x es @ writes x es'"
  by (induction x es rule: writes.induct) simp_all

lemma writes_calm: "list_all calm es \<Longrightarrow> writes x es = replicate (length (writes x es)) True"
  by (induction x es rule: writes.induct) simp_all

lemma writes_mem: "Write x v \<in> set es \<Longrightarrow> writes x es \<noteq> []"
  by (induction x es rule: writes.induct) auto

lemma ext_refl: "shutdown_ext st st"
  by (rule exI [of _ "[]"]) simp

lemma ext_trans:
  assumes "shutdown_ext st st'" and "shutdown_ext st' st''"
  shows "shutdown_ext st st''"
proof -
  from assms(1) obtain es where es: "trace st' = trace st @ es" "list_all calm es"
    "flags st' = replay es (flags st)" by blast
  from assms(2) obtain es' where es': "trace st'' = trace st' @ es'" "list_all calm es'"
    "flags st'' = replay es' (flags st')" by blast
  show ?thesis
    by (rule exI [of _ "es @ es'"]) (simp add: es es' replay_append)
qed

lemma ext_emit: "calm e \<Longrightarrow> apply_event e (flags st) = flags st \<Longrightarrow> shutdown_ext st (emit e st)"
  by (rule exI [of _ "[e]"]) simp



lemma ext_assign: "shutdown_ext st (assign x True st)"
  by (rule exI [of _ "[Write x True]"]) simp

lemma ext_waitpid: "shutdown_ext st (sys_waitpid pid st)"
  by (rule exI [of _ "[Waitpid pid]"]) simp

lemma ext_if:
  "shutdown_ext st a \<Longrightarrow> shutdown_ext st b \<Longrightarrow> shutdown_ext st (if c then a else b)"
  by (cases c) (simp_all only: if_True if_False)

lemma ext_loop: "shutdown_ext st (KillProcess_loop E pid kf n i st)"
proof (induction E pid kf n i st rule: KillProcess_loop.induct)
  case (1 E pid kf n i st)
  show ?case
  proof (cases "i < n \<and> \<not> flags st kf")
    case False
    then have h: "KillProcess_loop E pid kf n i st = st"
      by (subst KillProcess_loop.simps) auto
    show ?thesis unfolding h by (rule ext_refl)
  next
    case go: True
    show ?thesis
    proof (cases "waitpid_ret E (polls st) pid = pid")
      case True
      with go have h: "KillProcess_loop E pid kf n i st = assign kf True (sys_waitpid pid st)"
        by (subst KillProcess_loop.simps) simp
      show ?thesis
        unfolding h by (rule ext_trans [OF ext_waitpid ext_assign])
    next
      case False
      with go have eq: "KillProcess_loop E pid kf n i st =
          KillProcess_loop E pid kf n (Suc i) (emit Sleep (sys_waitpid pid st))"
        by (subst KillProcess_loop.simps) simp
      have "shutdown_ext (emit Sleep (sys_waitpid pid st))
          (KillProcess_loop E pid kf n (Suc i) (emit Sleep (sys_waitpid pid st)))"
        using "1.IH" go False by simp
      moreover have "shutdown_ext st (emit Sleep (sys_waitpid pid st))"
        by (rule ext_trans [OF ext_waitpid ext_emit]) simp_all
      ultimately show ?thesis
        unfolding eq by (rule ext_trans [rotated])
    qed
  qed
qed

lemma ext_KillProcess: "shutdown_ext st (KillProcess E pid name n kf st)"
proof -
  let ?st1 = "emit (Kill pid SIGINT) st"
  let ?st2 = "KillProcess_loop E pid kf n 0 ?st1"
  have a: "shutdown_ext st ?st2"
    by (rule ext_trans [OF ext_emit ext_loop]) simp_all
  have b: "shutdown_ext ?st2 (emit (Kill pid SIGKILL) (emit (LogErr name) ?st2))"
    by (rule ext_trans [OF ext_emit ext_emit]) simp_all
  show ?thesis
    using a ext_trans [OF a b] by (simp add: KillProcess_def Let_def)
qed

lemma ext_callback: "shutdown_ext st (sig_callback E C gp sp st)"
proof -
  let ?st1 = "assign SigKilled True st"
  let ?st2 = "if \<not> FLAGS_s C
     then KillProcess E gp ''ign-gazebo-gui'' timeout_iterations GuiKilled ?st1 else ?st1"
  let ?st3 = "if \<not> FLAGS_g C
     then KillProcess E sp ''ign-gazebo-server'' timeout_iterations ServerKilled ?st2 else ?st2"
  have 1: "shutdown_ext st ?st1" by (rule ext_assign)
  have 2: "shutdown_ext ?st1 ?st2" by (rule ext_if [OF ext_KillProcess ext_refl])
  have 3: "shutdown_ext ?st2 ?st3" by (rule ext_if [OF ext_KillProcess ext_refl])
  have "shutdown_ext st ?st3" by (rule ext_trans [OF ext_trans [OF 1 2] 3])
  then show ?thesis by (simp add: sig_callback_def Let_def)
qed

lemma ext_interrupts: "shutdown_ext st (interrupts k (sig_callback E C gp sp) st)"
proof (induction k)
  case 0
  show ?case by (simp add: interrupts_def ext_refl)
next
  case (Suc k)
  have "shutdown_ext (interrupts k (sig_callback E C gp sp) st)
      (sig_callback E C gp sp (interrupts k (sig_callback E C gp sp) st))"
    by (rule ext_callback)
  from ext_trans [OF Suc this] show ?case
    by (simp add: interrupts_def)
qed

section \<open>The loop of \<open>KillProcess\<close>\<close>

lemma loop_killed: "flags st kf \<Longrightarrow> KillProcess_loop E pid kf n i st = st"
  by (subst KillProcess_loop.simps) simp

lemma KillProcess_dead: "flags st kf \<Longrightarrow> KillProcess E pid name n kf st = emit (Kill pid SIGINT) st"
  by (simp add: KillProcess_def Let_def loop_killed emit_def)

lemma loop_never:
  "\<not> flags st kf \<Longrightarrow> \<forall>k<n - i. waitpid_ret E (polls st + k) pid \<noteq> pid \<Longrightarrow>
   KillProcess_loop E pid kf n i st =
     st\<lparr>trace := trace st @ concat (replicate (n - i) [Waitpid pid, Sleep]),
        polls := polls st + (n - i)\<rparr>"
proof (induction E pid kf n i st rule: KillProcess_loop.induct)
  case (1 E pid kf n i st)
  show ?case
  proof (cases "i < n")
    case False
    then show ?thesis by (subst KillProcess_loop.simps) simp
  next
    case True
    let ?st' = "emit Sleep (sys_waitpid pid st)"
    from "1.prems"(2) True have now: "waitpid_ret E (polls st) pid \<noteq> pid"
      by (metis add.right_neutral zero_less_diff)
    have nf: "\<not> flags ?st' kf" using "1.prems"(1) by (simp add: emit_def sys_waitpid_def)
    have later: "\<forall>k<n - Suc i. waitpid_ret E (polls ?st' + k) pid \<noteq> pid"
    proof (intro allI impI)
      fix k assume "k < n - Suc i"
      then have "Suc k < n - i" by arith
      with "1.prems"(2) have "waitpid_ret E (polls st + Suc k) pid \<noteq> pid" by blast
      then show "waitpid_ret E (polls ?st' + k) pid \<noteq> pid"
        by (simp add: emit_def sys_waitpid_def)
    qed
    have IH: "KillProcess_loop E pid kf n (Suc i) ?st' =
       ?st'\<lparr>trace := trace ?st' @ concat (replicate (n - Suc i) [Waitpid pid, Sleep]),
        polls := polls ?st' + (n - Suc i)\<rparr>"
      using "1.IH" [OF True "1.prems"(1) now nf later] .
    obtain m where m: "n - Suc i = m" and rep: "n - i = Suc m" using True by (simp add: Suc_diff_Suc)
    have "KillProcess_loop E pid kf n i st = KillProcess_loop E pid kf n (Suc i) ?st'"
      using True "1.prems"(1) now by (subst KillProcess_loop.simps [of E pid kf n i st]) simp
    also note IH
    finally show ?thesis
      unfolding m rep by (simp add: emit_def sys_waitpid_def)
  qed
qed

section \<open>The status word\<close>

lemma mask_0x7f: "(0x7f :: 32 word) = mask 7" by (simp add: mask_eq_exp_minus_1)
lemma bit_0x80: "(0x80 :: 32 word) = push_bit 7 1" by simp


lemma bit_128: "bit (128 :: 32 word) n \<longleftrightarrow> n = 7"
proof -
  have "(128 :: 32 word) = 2 ^ 7" by simp
  then show ?thesis by (simp only: bit_exp_iff) auto
qed

lemma small_bit: "sg \<le> 64 \<Longrightarrow> bit sg n \<Longrightarrow> n < 7" for sg :: nat
proof (rule ccontr)
  assume a: "sg \<le> 64" "bit sg n" "\<not> n < 7"
  then have "(2::nat) ^ 7 \<le> 2 ^ n" by (intro power_increasing) simp_all
  with a(1) have "sg < 2 ^ n" by simp
  with a(2) show False by (simp add: bit_iff_odd)
qed

lemma signal_status_low_bits:
  assumes "sg \<le> 64"
  shows "(word_of_nat sg OR (if core then 0x80 else 0)) AND (0x7f :: 32 word) = word_of_nat sg"
proof -
  have e1: "(0x80 :: 32 word) AND 0x7f = 0" by simp
  have e2: "word_of_nat sg AND (0x7f :: 32 word) = word_of_nat sg"
    unfolding mask_0x7f using assms by (intro bit_word_eqI) (auto simp: bit_simps dest: small_bit)
  show ?thesis
    by (simp add: bit.conj_disj_distrib2 e1 e2)
qed

lemma signal_number_nonzero: "1 \<le> sg \<Longrightarrow> sg \<le> 64 \<Longrightarrow> (word_of_nat sg :: 32 word) \<noteq> 0"
proof -
  assume a: "1 \<le> sg" "sg \<le> 64"
  then have "unat (word_of_nat sg :: 32 word) = sg"
    by (simp add: unat_of_nat)
  with a show ?thesis by (metis unat_eq_0 not_one_le_zero)
qed






section \<open>Events of \<open>KillProcess\<close>, of the callback and of the launch\<close>

lemma loop_events:
  "\<exists>es. trace (KillProcess_loop E pid kf n i st) = trace st @ es
     \<and> set es \<subseteq> {Waitpid pid, Sleep, Write kf True}"
proof (induction E pid kf n i st rule: KillProcess_loop.induct)
  case (1 E pid kf n i st)
  show ?case
  proof (cases "i < n \<and> \<not> flags st kf")
    case False
    then have "KillProcess_loop E pid kf n i st = st"
      by (subst KillProcess_loop.simps) auto
    then show ?thesis by simp
  next
    case go: True
    show ?thesis
    proof (cases "waitpid_ret E (polls st) pid = pid")
      case True
      with go have "KillProcess_loop E pid kf n i st = assign kf True (sys_waitpid pid st)"
        by (subst KillProcess_loop.simps) simp
      then have "trace (KillProcess_loop E pid kf n i st) = trace st @ [Waitpid pid, Write kf True]"
        by simp
      then show ?thesis by simp
    next
      case False
      with go have eq: "KillProcess_loop E pid kf n i st =
          KillProcess_loop E pid kf n (Suc i) (emit Sleep (sys_waitpid pid st))"
        by (subst KillProcess_loop.simps) simp
      from "1.IH" go False obtain es where
        es: "trace (KillProcess_loop E pid kf n (Suc i) (emit Sleep (sys_waitpid pid st))) =
               trace (emit Sleep (sys_waitpid pid st)) @ es"
            "set es \<subseteq> {Waitpid pid, Sleep, Write kf True}"
        by blast
      have "trace (KillProcess_loop E pid kf n i st) = trace st @ Waitpid pid # Sleep # es"
        by (simp add: eq es(1))
      with es(2) show ?thesis by simp
    qed
  qed
qed

lemma KillProcess_events:
  "\<exists>es. trace (KillProcess E pid name n kf st) = trace st @ Kill pid SIGINT # es
     \<and> set es \<subseteq> {Waitpid pid, Sleep, Write kf True, LogErr name, Kill pid SIGKILL}"
proof -
  let ?st1 = "emit (Kill pid SIGINT) st"
  let ?st2 = "KillProcess_loop E pid kf n 0 ?st1"
  from loop_events [of E pid kf n 0 ?st1] obtain es where
    es: "trace ?st2 = trace ?st1 @ es" "set es \<subseteq> {Waitpid pid, Sleep, Write kf True}"
    by blast
  show ?thesis
  proof (cases "flags ?st2 kf")
    case True
    then have "trace (KillProcess E pid name n kf st) = trace st @ Kill pid SIGINT # es"
      by (simp add: KillProcess_def Let_def es(1))
    with es(2) show ?thesis by auto
  next
    case False
    then have "trace (KillProcess E pid name n kf st) =
        trace st @ Kill pid SIGINT # (es @ [LogErr name, Kill pid SIGKILL])"
      by (simp add: KillProcess_def Let_def es(1))
    moreover have "set (es @ [LogErr name, Kill pid SIGKILL])
        \<subseteq> {Waitpid pid, Sleep, Write kf True, LogErr name, Kill pid SIGKILL}"
      using es(2) by auto
    ultimately show ?thesis by blast
  qed
qed

lemma callback_events:
  "\<exists>rg rs. trace (sig_callback E C gp sp st) =
        trace st @ Write SigKilled True
          # (if FLAGS_s C then [] else Kill gp SIGINT # rg)
          @ (if FLAGS_g C then [] else Kill sp SIGINT # rs)
     \<and> set rg \<subseteq> {Waitpid gp, Sleep, Write GuiKilled True, LogErr ''ign-gazebo-gui'',
                   Kill gp SIGKILL}
     \<and> set rs \<subseteq> {Waitpid sp, Sleep, Write ServerKilled True, LogErr ''ign-gazebo-server'',
                   Kill sp SIGKILL}"
proof -
  let ?st1 = "assign SigKilled True st"
  let ?st2 = "if \<not> FLAGS_s C
     then KillProcess E gp ''ign-gazebo-gui'' timeout_iterations GuiKilled ?st1 else ?st1"
  let ?st3 = "if \<not> FLAGS_g C
     then KillProcess E sp ''ign-gazebo-server'' timeout_iterations ServerKilled ?st2 else ?st2"
  have t1: "trace ?st1 = trace st @ [Write SigKilled True]"
    by simp
  from KillProcess_events [of E gp "''ign-gazebo-gui''" timeout_iterations GuiKilled ?st1]
  obtain rg where rg0:
    "trace (KillProcess E gp ''ign-gazebo-gui'' timeout_iterations GuiKilled ?st1) =
       trace ?st1 @ Kill gp SIGINT # rg"
    and rg2: "set rg \<subseteq> {Waitpid gp, Sleep, Write GuiKilled True, LogErr ''ign-gazebo-gui'',
                   Kill gp SIGKILL}"
    by blast
  have rg1: "trace ?st2 = trace ?st1 @ (if FLAGS_s C then [] else Kill gp SIGINT # rg)"
    using rg0 by simp
  note rg = rg1 rg2
  from KillProcess_events [of E sp "''ign-gazebo-server''" timeout_iterations ServerKilled ?st2]
  obtain rs where rs0:
    "trace (KillProcess E sp ''ign-gazebo-server'' timeout_iterations ServerKilled ?st2) =
       trace ?st2 @ Kill sp SIGINT # rs"
    and rs2: "set rs \<subseteq> {Waitpid sp, Sleep, Write ServerKilled True, LogErr ''ign-gazebo-server'',
                   Kill sp SIGKILL}"
    by blast
  have rs1: "trace ?st3 = trace ?st2 @ (if FLAGS_g C then [] else Kill sp SIGINT # rs)"
    using rs0 by simp
  note rs = rs1 rs2
  have "sig_callback E C gp sp st = ?st3"
    by (simp add: sig_callback_def Let_def)
  then have "trace (sig_callback E C gp sp st) =
        trace st @ Write SigKilled True
          # (if FLAGS_s C then [] else Kill gp SIGINT # rg)
          @ (if FLAGS_g C then [] else Kill sp SIGINT # rs)"
    by (simp only: rs(1) rg(1) t1) simp
  with rg(2) rs(2) show ?thesis by blast
qed

lemma ext_mono: "shutdown_ext st st' \<Longrightarrow> flags st x \<Longrightarrow> flags st' x"
  by (auto simp: replay_calm)

lemma callback_signaled: "flags (sig_callback E C gp sp st) SigKilled"
proof -
  let ?st1 = "assign SigKilled True st"
  let ?st2 = "if \<not> FLAGS_s C
     then KillProcess E gp ''ign-gazebo-gui'' timeout_iterations GuiKilled ?st1 else ?st1"
  let ?st3 = "if \<not> FLAGS_g C
     then KillProcess E sp ''ign-gazebo-server'' timeout_iterations ServerKilled ?st2 else ?st2"
  have 1: "flags ?st1 SigKilled" by simp
  have 2: "shutdown_ext ?st1 ?st2" by (rule ext_if [OF ext_KillProcess ext_refl])
  have 3: "shutdown_ext ?st2 ?st3" by (rule ext_if [OF ext_KillProcess ext_refl])
  have "flags ?st3 SigKilled" by (rule ext_mono [OF 3 ext_mono [OF 2 1]])
  then show ?thesis by (simp add: sig_callback_def Let_def)
qed

lemma launch_pids:
  "fst (launch E C st) =
     (if FLAGS_g C then stack_serverPid E else fork_server E,
      if FLAGS_s C then stack_guiPid E else fork_gui E)"
  by (simp add: launch_def Let_def split: prod.splits)

lemma launch_trace:
  "trace (snd (launch E C st)) = trace st
     @ (if FLAGS_g C then []
        else [Spawn (child_argv ''ign-gazebo-server'' (argv C) ! 0)
                (child_argv ''ign-gazebo-server'' (argv C)) (fork_server E)])
     @ (if FLAGS_s C then []
        else [Spawn (child_argv ''ign-gazebo-gui'' (argv C) ! 0)
                (child_argv ''ign-gazebo-gui'' (argv C)) (fork_gui E)])"
  by (simp add: launch_def Let_def split: prod.splits)

lemma launch_flags: "flags (snd (launch E C st)) = flags st"
  by (simp add: launch_def Let_def split: prod.splits)

lemma main_runs:
  assumes "runs_gazebo C"
  shows "main E C =
    (let st1 = emit LogMsg (emit (SetVerbosity
                 (if verbose_is_default C then (if \<not> v_is_default C then FLAGS_v C else 1)
                  else FLAGS_verbose C)) init_state);
         pids = fst (launch E C st1);
         st2 = snd (launch E C st1);
         r = supervise E C (fst pids) (snd pids) st2
     in (Inr (fst r), snd r))"
  using assms
  by (simp add: main_def ParseCommandLineNonHelpFlags_def runs_gazebo_def Let_def
        split: prod.splits)

section \<open>The supervision\<close>

lemma calm_no_spawn: "list_all calm es \<Longrightarrow> filter is_spawn es = []"
proof (induction es)
  case (Cons e es)
  then show ?case by (cases e) simp_all
qed simp

lemma supervise_snd:
  "snd (supervise E C sp gp st) =
    emit LogDbg (interrupts (ext_signals E 3) (sig_callback E C gp sp)
      (let st5 = interrupts (ext_signals E 2) (sig_callback E C gp sp)
         (let st3 = interrupts (ext_signals E 1) (sig_callback E C gp sp)
             (emit Wait (interrupts (ext_signals E 0) (sig_callback E C gp sp)
                (assign SigKilled False (assign ServerKilled False (assign GuiKilled False st)))))
          in if wait_ret E = gp then assign GuiKilled True st3
             else if wait_ret E = sp then assign ServerKilled True st3
             else st3)
       in if \<not> flags st5 SigKilled then sig_callback E C gp sp (emit (Raise SIGINT) st5)
          else st5))"
  by (simp add: supervise_def Let_def)


lemma supervise_ext:
  "shutdown_ext (assign SigKilled False (assign ServerKilled False (assign GuiKilled False st)))
     (snd (supervise E C sp gp st))"
  and supervise_signaled: "flags (snd (supervise E C sp gp st)) SigKilled"
  and supervise_callback_ran:
    "\<exists>sa es. trace (snd (supervise E C sp gp st)) = trace (sig_callback E C gp sp sa) @ es"
proof -
  define cb where "cb = sig_callback E C gp sp"
  define st1 where
    "st1 = assign SigKilled False (assign ServerKilled False (assign GuiKilled False st))"
  define i0 where "i0 = interrupts (ext_signals E 0) cb st1"
  define st2 where "st2 = emit Wait i0"
  define st3 where "st3 = interrupts (ext_signals E 1) cb st2"
  define st4 where "st4 = (if wait_ret E = gp then assign GuiKilled True st3
             else if wait_ret E = sp then assign ServerKilled True st3
             else st3)"
  define st5 where "st5 = interrupts (ext_signals E 2) cb st4"
  define st6 where "st6 = (if \<not> flags st5 SigKilled then cb (emit (Raise SIGINT) st5) else st5)"
  define st7 where "st7 = interrupts (ext_signals E 3) cb st6"
  define fin where "fin = emit LogDbg st7"
  note defs = cb_def st1_def i0_def st2_def st3_def st4_def st5_def st6_def st7_def fin_def
  have fin: "snd (supervise E C sp gp st) = fin"
    unfolding defs by (simp add: supervise_snd Let_def)
  have f7: "shutdown_ext st7 fin" unfolding fin_def by (rule ext_emit) simp_all
  have f6: "shutdown_ext st6 fin"
    using ext_interrupts f7 unfolding st7_def cb_def by (rule ext_trans)
  have e56: "shutdown_ext st5 st6"
    unfolding st6_def cb_def
    by (rule ext_if [OF ext_trans [OF ext_emit ext_callback] ext_refl]) simp_all
  have f5: "shutdown_ext st5 fin" by (rule ext_trans [OF e56 f6])
  have f4: "shutdown_ext st4 fin"
    using ext_interrupts f5 unfolding st5_def cb_def by (rule ext_trans)
  have e34: "shutdown_ext st3 st4" unfolding st4_def by (intro ext_if ext_assign ext_refl)
  have f3: "shutdown_ext st3 fin" by (rule ext_trans [OF e34 f4])
  have f2: "shutdown_ext st2 fin"
    using ext_interrupts f3 unfolding st3_def cb_def by (rule ext_trans)
  have e02: "shutdown_ext i0 st2" unfolding st2_def by (rule ext_emit) simp_all
  have f0: "shutdown_ext i0 fin" by (rule ext_trans [OF e02 f2])
  have f1: "shutdown_ext st1 fin"
    using ext_interrupts f0 unfolding i0_def cb_def by (rule ext_trans)
  show "shutdown_ext (assign SigKilled False (assign ServerKilled False (assign GuiKilled False st)))
     (snd (supervise E C sp gp st))"
    using f1 unfolding fin st1_def .
  have "flags st6 SigKilled"
    unfolding st6_def cb_def
    by (cases "flags st5 SigKilled") (simp_all only: if_True if_False not_True_eq_False
          not_False_eq_True callback_signaled)
  then have "flags fin SigKilled" by (rule ext_mono [OF f6])
  then show "flags (snd (supervise E C sp gp st)) SigKilled"
    unfolding fin .
  have susp: "interrupts (Suc k) cb s = cb (interrupts k cb s)" for k s
    by (simp add: interrupts_def)
  have pre: "\<exists>es. trace fin = trace (cb sa) @ es" if "shutdown_ext (cb sa) fin" for sa
    using that by blast
  have ran: "\<exists>sa es. trace fin = trace (cb sa) @ es"
  proof (cases "flags st5 SigKilled")
    case False
    then have "st6 = cb (emit (Raise SIGINT) st5)" by (simp add: st6_def)
    with f6 have "shutdown_ext (cb (emit (Raise SIGINT) st5)) fin" by simp
    from pre [OF this] show ?thesis by (rule exI)
  next
    case sig: True
    show ?thesis
    proof (cases "ext_signals E 0")
      case (Suc k)
      then have "i0 = cb (interrupts k cb st1)" by (simp only: i0_def susp)
      with f0 have "shutdown_ext (cb (interrupts k cb st1)) fin" by simp
      from pre [OF this] show ?thesis by (rule exI)
    next
      case z0: 0
      show ?thesis
      proof (cases "ext_signals E 1")
        case (Suc k)
        then have "st3 = cb (interrupts k cb st2)" by (simp only: st3_def susp)
        with f3 have "shutdown_ext (cb (interrupts k cb st2)) fin" by simp
        from pre [OF this] show ?thesis by (rule exI)
      next
        case z1: 0
        show ?thesis
        proof (cases "ext_signals E 2")
          case (Suc k)
          then have "st5 = cb (interrupts k cb st4)" by (simp only: st5_def susp)
          with f5 have "shutdown_ext (cb (interrupts k cb st4)) fin" by simp
          from pre [OF this] show ?thesis by (rule exI)
        next
          case z2: 0
          have i: "interrupts 0 cb s = s" for s by (simp add: interrupts_def)
          have "\<not> flags st5 SigKilled"
            unfolding st5_def st4_def st3_def st2_def i0_def st1_def z0 z1 z2 i
            by simp
          with sig show ?thesis by contradiction
        qed
      qed
    qed
  qed
  show "\<exists>sa es. trace (snd (supervise E C sp gp st)) = trace (sig_callback E C gp sp sa) @ es"
    using ran unfolding fin cb_def .
qed

section \<open>The argument vectors of the children\<close>

lemma length_fold_update: "length (fold (\<lambda>i a. a[i := f i]) xs a) = length a"
  by (induction xs arbitrary: a) simp_all

lemma fold_update_nth:
  "j < length a \<Longrightarrow>
   fold (\<lambda>i a. a[i := f i]) [lo..<hi] a ! j = (if lo \<le> j \<and> j < hi then f j else a ! j)"
proof (induction hi)
  case 0
  then show ?case by simp
next
  case (Suc hi)
  show ?case
  proof (cases "lo \<le> hi")
    case True
    then show ?thesis
      using Suc by (auto simp: length_fold_update nth_list_update less_Suc_eq)
  next
    case False
    then show ?thesis by auto
  qed
qed

lemma child_argv_eq: "child_argv name av = (map Ptr av)[0 := Ptr name] @ [Nullptr]"
proof (rule nth_equalityI)
  show "length (child_argv name av) = length ((map Ptr av)[0 := Ptr name] @ [Nullptr])"
    by (simp add: child_argv_def Let_def length_fold_update)
next
  fix i assume "i < length (child_argv name av)"
  then have i: "i \<le> length av"
    by (simp add: child_argv_def Let_def length_fold_update)
  show "child_argv name av ! i = ((map Ptr av)[0 := Ptr name] @ [Nullptr]) ! i"
  proof (cases "i = length av")
    case True
    then show ?thesis
      by (simp add: child_argv_def Let_def length_fold_update nth_append)
  next
    case False
    with i have lt: "i < length av" by simp
    show ?thesis
    proof (cases "i = 0")
      case True
      with lt show ?thesis
        by (simp add: child_argv_def Let_def length_fold_update fold_update_nth nth_append
              nth_list_update)
    next
      case False
      with lt show ?thesis
        by (simp add: child_argv_def Let_def length_fold_update fold_update_nth nth_append
              nth_list_update)
    qed
  qed
qed

section \<open>\<open>KillProcess\<close> on a dead child and on a child that never exits\<close>

lemma KillProcess_killed:
  "flags st kf \<Longrightarrow> KillProcess E pid name n kf st = st\<lparr>trace := trace st @ [Kill pid SIGINT]\<rparr>"
  by (simp add: KillProcess_dead emit_def)

lemma KillProcess_never:
  assumes "\<not> flags st kf" and "\<forall>k<n. waitpid_ret E (polls st + k) pid \<noteq> pid"
  shows "KillProcess E pid name n kf st =
     st\<lparr>trace := trace st @ Kill pid SIGINT # concat (replicate n [Waitpid pid, Sleep])
                   @ [LogErr name, Kill pid SIGKILL],
        polls := polls st + n\<rparr>"
proof -
  let ?st1 = "emit (Kill pid SIGINT) st"
  have a: "\<not> flags ?st1 kf" using assms(1) by simp
  have b: "\<forall>k<n - 0. waitpid_ret E (polls ?st1 + k) pid \<noteq> pid" using assms(2) by simp
  show ?thesis
    by (simp add: KillProcess_def Let_def loop_never [OF a b] assms(1))
qed

section \<open>The run of \<open>main\<close>\<close>

lemma main_not_runs:
  assumes "\<not> runs_gazebo C"
  shows "trace (snd (main E C)) = [] \<or> trace (snd (main E C)) = [HelpText]
         \<or> trace (snd (main E C)) = [VersionText]"
  using assms
  by (auto simp: main_def ParseCommandLineNonHelpFlags_def runs_gazebo_def Let_def init_state_def)

lemma main_snd:
  assumes "runs_gazebo C"
  shows "\<exists>st2. snd (main E C) =
            snd (supervise E C (if FLAGS_g C then stack_serverPid E else fork_server E)
                   (if FLAGS_s C then stack_guiPid E else fork_gui E) st2)
          \<and> flags st2 = (\<lambda>x. False)
          \<and> (\<exists>v. trace st2 = [SetVerbosity v, LogMsg]
               @ (if FLAGS_g C then []
                  else [Spawn (child_argv ''ign-gazebo-server'' (argv C) ! 0)
                          (child_argv ''ign-gazebo-server'' (argv C)) (fork_server E)])
               @ (if FLAGS_s C then []
                  else [Spawn (child_argv ''ign-gazebo-gui'' (argv C) ! 0)
                          (child_argv ''ign-gazebo-gui'' (argv C)) (fork_gui E)]))"
proof -
  define v where "v = (if verbose_is_default C then (if \<not> v_is_default C then FLAGS_v C else 1)
                  else FLAGS_verbose C)"
  define st1 where "st1 = emit LogMsg (emit (SetVerbosity v) init_state)"
  define st2 where "st2 = snd (launch E C st1)"
  have "snd (main E C) = snd (supervise E C (fst (fst (launch E C st1)))
      (snd (fst (launch E C st1))) st2)"
    unfolding main_runs [OF assms] st2_def st1_def v_def by (simp add: Let_def)
  then have 1: "snd (main E C) =
            snd (supervise E C (if FLAGS_g C then stack_serverPid E else fork_server E)
                   (if FLAGS_s C then stack_guiPid E else fork_gui E) st2)"
    by (simp add: launch_pids)
  have 2: "flags st2 = (\<lambda>x. False)"
    by (simp add: st2_def launch_flags st1_def init_state_def)
  have 3: "trace st2 = [SetVerbosity v, LogMsg]
               @ (if FLAGS_g C then []
                  else [Spawn (child_argv ''ign-gazebo-server'' (argv C) ! 0)
                          (child_argv ''ign-gazebo-server'' (argv C)) (fork_server E)])
               @ (if FLAGS_s C then []
                  else [Spawn (child_argv ''ign-gazebo-gui'' (argv C) ! 0)
                          (child_argv ''ign-gazebo-gui'' (argv C)) (fork_gui E)])"
    by (simp add: st2_def launch_trace st1_def init_state_def)
  from 1 2 3 show ?thesis by blast
qed


lemma main_trace:
  assumes "runs_gazebo C"
  shows "\<exists>v es. trace (snd (main E C)) =
            [SetVerbosity v, LogMsg]
            @ (if FLAGS_g C then []
               else [Spawn (child_argv ''ign-gazebo-server'' (argv C) ! 0)
                       (child_argv ''ign-gazebo-server'' (argv C)) (fork_server E)])
            @ (if FLAGS_s C then []
               else [Spawn (child_argv ''ign-gazebo-gui'' (argv C) ! 0)
                       (child_argv ''ign-gazebo-gui'' (argv C)) (fork_gui E)])
            @ [Write GuiKilled False, Write ServerKilled False, Write SigKilled False]
            @ es
          \<and> list_all calm es
          \<and> flags (snd (main E C)) = replay es (\<lambda>x. False)
          \<and> Write SigKilled True \<in> set es"
proof -
  from main_snd [OF assms, of E] obtain st2 v where
    m: "snd (main E C) =
            snd (supervise E C (if FLAGS_g C then stack_serverPid E else fork_server E)
                   (if FLAGS_s C then stack_guiPid E else fork_gui E) st2)"
    and f2: "flags st2 = (\<lambda>x. False)"
    and t2: "trace st2 = [SetVerbosity v, LogMsg]
               @ (if FLAGS_g C then []
                  else [Spawn (child_argv ''ign-gazebo-server'' (argv C) ! 0)
                          (child_argv ''ign-gazebo-server'' (argv C)) (fork_server E)])
               @ (if FLAGS_s C then []
                  else [Spawn (child_argv ''ign-gazebo-gui'' (argv C) ! 0)
                          (child_argv ''ign-gazebo-gui'' (argv C)) (fork_gui E)])"
    by blast
  define st1 where
    "st1 = assign SigKilled False (assign ServerKilled False (assign GuiKilled False st2))"
  have f1: "flags st1 = (\<lambda>x. False)"
    by (rule ext) (simp add: st1_def f2)
  have t1: "trace st1 = trace st2
      @ [Write GuiKilled False, Write ServerKilled False, Write SigKilled False]"
    by (simp add: st1_def)
  from supervise_ext [where st = st2 and E = E and C = C
      and sp = "if FLAGS_g C then stack_serverPid E else fork_server E"
      and gp = "if FLAGS_s C then stack_guiPid E else fork_gui E"]
  obtain es where es: "trace (snd (main E C)) = trace st1 @ es" "list_all calm es"
    "flags (snd (main E C)) = replay es (flags st1)"
    unfolding m [symmetric] st1_def [symmetric] by blast
  have "flags (snd (main E C)) SigKilled"
    unfolding m by (rule supervise_signaled)
  then have w: "Write SigKilled True \<in> set es"
    using es(2) by (simp add: es(3) f1 replay_calm)
  have "trace (snd (main E C)) =
            [SetVerbosity v, LogMsg]
            @ (if FLAGS_g C then []
               else [Spawn (child_argv ''ign-gazebo-server'' (argv C) ! 0)
                       (child_argv ''ign-gazebo-server'' (argv C)) (fork_server E)])
            @ (if FLAGS_s C then []
               else [Spawn (child_argv ''ign-gazebo-gui'' (argv C) ! 0)
                       (child_argv ''ign-gazebo-gui'' (argv C)) (fork_gui E)])
            @ [Write GuiKilled False, Write ServerKilled False, Write SigKilled False]
            @ es"
    by (simp only: es(1) t1 t2 append_assoc)
  with es(2) es(3) f1 w show ?thesis by metis
qed

lemma main_spawns:
  assumes "runs_gazebo C"
  shows "filter is_spawn (trace (snd (main E C))) =
            (if FLAGS_g C then []
               else [Spawn (child_argv ''ign-gazebo-server'' (argv C) ! 0)
                       (child_argv ''ign-gazebo-server'' (argv C)) (fork_server E)])
            @ (if FLAGS_s C then []
               else [Spawn (child_argv ''ign-gazebo-gui'' (argv C) ! 0)
                       (child_argv ''ign-gazebo-gui'' (argv C)) (fork_gui E)])"
proof -
  from main_trace [OF assms, of E] obtain v es where
    t: "trace (snd (main E C)) =
            [SetVerbosity v, LogMsg]
            @ (if FLAGS_g C then []
               else [Spawn (child_argv ''ign-gazebo-server'' (argv C) ! 0)
                       (child_argv ''ign-gazebo-server'' (argv C)) (fork_server E)])
            @ (if FLAGS_s C then []
               else [Spawn (child_argv ''ign-gazebo-gui'' (argv C) ! 0)
                       (child_argv ''ign-gazebo-gui'' (argv C)) (fork_gui E)])
            @ [Write GuiKilled False, Write ServerKilled False, Write SigKilled False]
            @ es"
    and c: "list_all calm es"
    by blast
  show ?thesis
    unfolding t by (simp add: calm_no_spawn [OF c])
qed

lemma suffix_after:
  assumes "P @ es = a @ w # b" and "w \<notin> set P"
  shows "\<exists>c. es = c @ w # b"
proof -
  from assms(1) obtain us where
    "(P = a @ us \<and> us @ es = w # b) \<or> (P @ us = a \<and> es = us @ w # b)"
    by (auto simp: append_eq_append_conv2)
  then show ?thesis
  proof
    assume h: "P = a @ us \<and> us @ es = w # b"
    show ?thesis
    proof (cases us)
      case Nil
      with h show ?thesis by auto
    next
      case (Cons u us')
      with h have "w \<in> set P" by auto
      with assms(2) show ?thesis by contradiction
    qed
  next
    assume "P @ us = a \<and> es = us @ w # b"
    then show ?thesis by blast
  qed
qed

lemma VerbosityValidator_iff: "VerbosityValidator name v \<longleftrightarrow> v \<in> {0, 1, 2, 3, 4}"
proof
  assume "VerbosityValidator name v"
  then have "sint v = 0 \<or> sint v = 1 \<or> sint v = 2 \<or> sint v = 3 \<or> sint v = 4"
    unfolding VerbosityValidator_def by arith
  moreover have "v = word_of_int (sint v)" by simp
  ultimately have "v = word_of_int 0 \<or> v = word_of_int 1 \<or> v = word_of_int 2
      \<or> v = word_of_int 3 \<or> v = word_of_int 4"
    by metis
  then show "v \<in> {0, 1, 2, 3, 4}" by auto
next
  assume "v \<in> {0, 1, 2, 3, 4}"
  then show "VerbosityValidator name v"
    by (auto simp: VerbosityValidator_def)
qed

lemma main_fail_iff:
  "fst (main E C) = Inl ValidationFailure
   \<longleftrightarrow> \<not> (VerbosityValidator ''verbose'' (FLAGS_verbose C) \<and> VerbosityValidator ''v'' (FLAGS_v C))"
  by (simp add: main_def ParseCommandLineNonHelpFlags_def Let_def split: prod.splits)

lemma writes_if_spawn [simp]: "writes x (if c then [] else [Spawn f a p]) = []"
  by simp

lemma replay_if_spawn [simp]: "replay (if c then [] else [Spawn f a p]) g = g"
  by simp

lemma runs_plain: "runs_gazebo plain_cmdline"
  by (simp add: runs_gazebo_def plain_cmdline_def VerbosityValidator_def)

lemma trace_plain: "trace (snd (main prompt_env plain_cmdline)) =
      [SetVerbosity 1, LogMsg,
        Spawn (Ptr ''ign-gazebo-server'')
         [Ptr ''ign-gazebo-server'', Ptr ''-f'', Ptr ''shapes.sdf'', Nullptr] 101,
        Spawn (Ptr ''ign-gazebo-gui'')
         [Ptr ''ign-gazebo-gui'', Ptr ''-f'', Ptr ''shapes.sdf'', Nullptr] 102,
        Write GuiKilled False, Write ServerKilled False,
        Write SigKilled False, Wait, Write ServerKilled True, Raise SIGINT,
        Write SigKilled True, Kill 102 SIGINT, Waitpid 102, Write GuiKilled True,
        Kill 101 SIGINT, LogDbg]"
  by code_simp

lemma supervise_unsolicited:
  assumes "ext_signals E 0 = 0" and "ext_signals E 1 = 0" and "ext_signals E 2 = 0"
  shows "\<exists>a b. trace (snd (supervise E C sp gp st)) =
            trace st @ a @ Raise SIGINT # Write SigKilled True # b
          \<and> set a \<subseteq> {Write GuiKilled False, Write ServerKilled False, Write SigKilled False,
                      Wait, Write GuiKilled True, Write ServerKilled True}
          \<and> (\<not> FLAGS_s C \<longrightarrow> Kill gp SIGINT \<in> set b)
          \<and> (\<not> FLAGS_g C \<longrightarrow> Kill sp SIGINT \<in> set b)"
proof -
  define cb where "cb = sig_callback E C gp sp"
  define st3 where "st3 = emit Wait
      (assign SigKilled False (assign ServerKilled False (assign GuiKilled False st)))"
  define st4 where "st4 = (if wait_ret E = gp then assign GuiKilled True st3
             else if wait_ret E = sp then assign ServerKilled True st3
             else st3)"
  define a where "a = [Write GuiKilled False, Write ServerKilled False, Write SigKilled False,
      Wait] @ (if wait_ret E = gp then [Write GuiKilled True]
               else if wait_ret E = sp then [Write ServerKilled True] else [])"
  define st6 where "st6 = cb (emit (Raise SIGINT) st4)"
  define st7 where "st7 = interrupts (ext_signals E 3) cb st6"
  define fin where "fin = emit LogDbg st7"
  have i0: "interrupts 0 f s = s" for f s by (simp add: interrupts_def)
  have nf: "\<not> flags st4 SigKilled" by (simp add: st4_def st3_def)
  have t4: "trace st4 = trace st @ a" by (simp add: st4_def st3_def a_def)
  have sa: "set a \<subseteq> {Write GuiKilled False, Write ServerKilled False, Write SigKilled False,
                      Wait, Write GuiKilled True, Write ServerKilled True}"
    by (auto simp: a_def)
  have signal_status_low_bits: "ext_signals E (Suc 0) = 0" using assms(2) by simp
  have fin: "snd (supervise E C sp gp st) = fin"
    using nf unfolding fin_def st7_def st6_def cb_def st4_def st3_def
    by (simp add: supervise_snd Let_def assms(1) signal_status_low_bits assms(3) i0)
  from callback_events [of E C gp sp "emit (Raise SIGINT) st4"] obtain rg rs where
    t6: "trace st6 = trace (emit (Raise SIGINT) st4) @ Write SigKilled True
          # (if FLAGS_s C then [] else Kill gp SIGINT # rg)
          @ (if FLAGS_g C then [] else Kill sp SIGINT # rs)"
    unfolding st6_def cb_def by blast
  have "shutdown_ext st7 fin" unfolding fin_def by (rule ext_emit) simp_all
  with ext_interrupts have "shutdown_ext st6 fin"
    unfolding st7_def cb_def by (rule ext_trans)
  then obtain es where tf: "trace fin = trace st6 @ es" by blast
  define b where "b = (if FLAGS_s C then [] else Kill gp SIGINT # rg)
          @ (if FLAGS_g C then [] else Kill sp SIGINT # rs) @ es"
  have "trace fin = trace st @ a @ Raise SIGINT # Write SigKilled True # b"
    by (simp add: tf t6 t4 b_def)
  moreover have "\<not> FLAGS_s C \<longrightarrow> Kill gp SIGINT \<in> set b" by (simp add: b_def)
  moreover have "\<not> FLAGS_g C \<longrightarrow> Kill sp SIGINT \<in> set b" by (simp add: b_def)
  ultimately show ?thesis using sa unfolding fin by blast
qed

section \<open>The claims about \<open>KillProcess\<close>\<close>

text \<open>
  Claim C2, as the code has it. When the flag \<open>_killed\<close> is already true, \<open>KillProcess\<close>
  still sends the interrupt: \<open>kill(_pid, SIGINT)\<close> is its first statement and is not
  guarded. After that the loop breaks at once, so there is no \<open>waitpid\<close> call, no sleep
  and no \<open>SIGKILL\<close>; the flag stays true. For every environment, pid, name, loop bound
  and state: the state on return is the state on entry with \<open>Kill pid SIGINT\<close> appended
  to the trace.
\<close>

theorem KillProcess_on_dead_child:
  assumes "flags st kf"
  shows "KillProcess E pid name n kf st = st\<lparr>trace := trace st @ [Kill pid SIGINT]\<rparr>"
  using assms by (rule KillProcess_killed)

theorem KillProcess_on_dead_child_witness:
  "flags (init_state\<lparr>flags := (\<lambda>x. True)\<rparr>) ServerKilled
   \<and> trace (KillProcess prompt_env 101 ''ign-gazebo-server'' timeout_iterations ServerKilled
        (init_state\<lparr>flags := (\<lambda>x. True)\<rparr>)) = [Kill 101 SIGINT]
   \<and> polls (KillProcess prompt_env 101 ''ign-gazebo-server'' timeout_iterations ServerKilled
        (init_state\<lparr>flags := (\<lambda>x. True)\<rparr>)) = 0
   \<and> flags (KillProcess prompt_env 101 ''ign-gazebo-server'' timeout_iterations ServerKilled
        (init_state\<lparr>flags := (\<lambda>x. True)\<rparr>)) ServerKilled"
  using KillProcess_on_dead_child [of "init_state\<lparr>flags := (\<lambda>x. True)\<rparr>" ServerKilled
      prompt_env 101 "''ign-gazebo-server''" timeout_iterations]
  by (simp add: init_state_def)

text \<open>
  Claim C2 as stated says that no signal is sent to a child whose flag is already true.
  On the GUI child with pid 102, flag \<open>guiKilled\<close> true and an empty trace, the call the
  callback makes leaves exactly one event in the trace: the interrupt.
\<close>

theorem KillProcess_on_dead_child_sends_SIGINT:
  "flags (init_state\<lparr>flags := (\<lambda>x. x = GuiKilled)\<rparr>) GuiKilled
   \<and> trace (init_state\<lparr>flags := (\<lambda>x. x = GuiKilled)\<rparr>) = []
   \<and> trace (KillProcess prompt_env 102 ''ign-gazebo-gui'' timeout_iterations GuiKilled
        (init_state\<lparr>flags := (\<lambda>x. x = GuiKilled)\<rparr>)) = [Kill 102 SIGINT]"
  by (simp add: init_state_def KillProcess_killed)

text \<open>
  Claim C3, as the code has it. If the flag is false on entry and none of the \<open>n\<close>
  \<open>waitpid\<close> calls of the loop returns the child's pid, then \<open>KillProcess\<close> sends the
  interrupt, runs all \<open>n\<close> iterations (each a \<open>waitpid\<close> call followed by a sleep),
  writes the error message and sends \<open>SIGKILL\<close> exactly once, as its last action. It
  does not store anything in the flag: \<open>_killed\<close> is still false on return.
\<close>

theorem KillProcess_escalates_after_budget:
  assumes "\<not> flags st kf" and "\<forall>k<n. waitpid_ret E (polls st + k) pid \<noteq> pid"
  shows "KillProcess E pid name n kf st =
     st\<lparr>trace := trace st @ Kill pid SIGINT # concat (replicate n [Waitpid pid, Sleep])
                   @ [LogErr name, Kill pid SIGKILL],
        polls := polls st + n\<rparr>
    \<and> flags (KillProcess E pid name n kf st) kf = False"
  using assms KillProcess_never [OF assms, of name] by simp

theorem KillProcess_escalates_after_budget_witness:
  "\<not> flags init_state ServerKilled
   \<and> waitpid_ret stubborn_env = (\<lambda>k p. 0)
   \<and> trace (KillProcess stubborn_env 101 ''ign-gazebo-server'' 2 ServerKilled init_state) =
       [Kill 101 SIGINT, Waitpid 101, Sleep, Waitpid 101, Sleep,
        LogErr ''ign-gazebo-server'', Kill 101 SIGKILL]
   \<and> polls (KillProcess stubborn_env 101 ''ign-gazebo-server'' 2 ServerKilled init_state) = 2"
  using KillProcess_escalates_after_budget
    [of init_state ServerKilled 2 stubborn_env 101 "''ign-gazebo-server''"]
  by (simp add: init_state_def stubborn_env_def prompt_env_def numeral_2_eq_2)

text \<open>
  Claim C3 as stated says that the killed result reflects a dead child on return. For
  a GUI child with pid 7 that no \<open>waitpid\<close> call reports, and a loop bound of 3, the
  forceful kill is sent after the three iterations and \<open>guiKilled\<close> is false on return.
\<close>

theorem KillProcess_escalation_leaves_flag_false:
  "\<not> flags init_state GuiKilled
   \<and> waitpid_ret stubborn_env = (\<lambda>k p. 0)
   \<and> trace (KillProcess stubborn_env 7 ''ign-gazebo-gui'' 3 GuiKilled init_state) =
       [Kill 7 SIGINT, Waitpid 7, Sleep, Waitpid 7, Sleep, Waitpid 7, Sleep,
        LogErr ''ign-gazebo-gui'', Kill 7 SIGKILL]
   \<and> \<not> flags (KillProcess stubborn_env 7 ''ign-gazebo-gui'' 3 GuiKilled init_state) GuiKilled"
proof -
  have a: "\<not> flags init_state GuiKilled" by (simp add: init_state_def)
  have b: "\<forall>k<3. waitpid_ret stubborn_env (polls init_state + k) 7 \<noteq> 7"
    by (simp add: stubborn_env_def)
  show ?thesis
    using KillProcess_never [OF a b, of "''ign-gazebo-gui''"]
    by (simp add: init_state_def stubborn_env_def numeral_3_eq_3)
qed

section \<open>The claims about \<open>main\<close>\<close>

subsection \<open>The launch plan\<close>

text \<open>
  Claim C1, as the code has it. On every run that reaches the launch, the \<open>Spawn\<close> events
  of the trace are: the server unless \<open>-g\<close> is set, then the GUI unless \<open>-s\<close> is set.
  So neither flag gives both children, \<open>-s\<close> alone the server only and \<open>-g\<close> alone the
  GUI only. With both flags the server is not forked either (its guard is
  \<open>!FLAGS_g\<close>), against the help text "\<open>-s\<close> ... will override \<open>-g\<close>": the sample below
  has both flags set and spawns nothing.
\<close>

theorem launch_plan_of_flags:
  assumes "runs_gazebo C"
  shows "filter is_spawn (trace (snd (main E C))) =
            (if FLAGS_g C then []
               else [Spawn (child_argv ''ign-gazebo-server'' (argv C) ! 0)
                       (child_argv ''ign-gazebo-server'' (argv C)) (fork_server E)])
            @ (if FLAGS_s C then []
               else [Spawn (child_argv ''ign-gazebo-gui'' (argv C) ! 0)
                       (child_argv ''ign-gazebo-gui'' (argv C)) (fork_gui E)])"
  using assms by (rule main_spawns)

theorem launch_plan_of_flags_witness:
  "runs_gazebo (plain_cmdline\<lparr>FLAGS_s := True, FLAGS_g := True\<rparr>)
   \<and> FLAGS_s (plain_cmdline\<lparr>FLAGS_s := True, FLAGS_g := True\<rparr>)
   \<and> FLAGS_g (plain_cmdline\<lparr>FLAGS_s := True, FLAGS_g := True\<rparr>)
   \<and> filter is_spawn
        (trace (snd (main prompt_env (plain_cmdline\<lparr>FLAGS_s := True, FLAGS_g := True\<rparr>)))) = []"
  using launch_plan_of_flags [of "plain_cmdline\<lparr>FLAGS_s := True, FLAGS_g := True\<rparr>" prompt_env]
  by (simp add: runs_gazebo_def plain_cmdline_def VerbosityValidator_def)

subsection \<open>An unsolicited exit\<close>

text \<open>
  Claim C4. On a run that reaches the launch and in which no signal from outside has run
  the callback before \<open>main\<close> tests \<open>sigKilled\<close>, the supervisor raises \<open>SIGINT\<close> against
  itself; the callback runs at once (its first event is the write of \<open>sigKilled\<close>), and
  before \<open>main\<close> returns it sends \<open>SIGINT\<close> to every child that was launched: to the GUI
  unless \<open>-s\<close> is set and to the server unless \<open>-g\<close> is set. No \<open>raise\<close> and no write of
  true to \<open>sigKilled\<close> comes earlier in the trace.
\<close>

theorem unsolicited_exit_interrupts_children:
  assumes "runs_gazebo C"
    and "ext_signals E 0 = 0" and "ext_signals E 1 = 0" and "ext_signals E 2 = 0"
  shows "\<exists>a b. trace (snd (main E C)) = a @ Raise SIGINT # Write SigKilled True # b
          \<and> Raise SIGINT \<notin> set a \<and> Write SigKilled True \<notin> set a
          \<and> (\<not> FLAGS_s C \<longrightarrow> Kill (fork_gui E) SIGINT \<in> set b)
          \<and> (\<not> FLAGS_g C \<longrightarrow> Kill (fork_server E) SIGINT \<in> set b)"
proof -
  from main_snd [OF assms(1), of E] obtain st2 v where
    m: "snd (main E C) =
            snd (supervise E C (if FLAGS_g C then stack_serverPid E else fork_server E)
                   (if FLAGS_s C then stack_guiPid E else fork_gui E) st2)"
    and t2: "trace st2 = [SetVerbosity v, LogMsg]
               @ (if FLAGS_g C then []
                  else [Spawn (child_argv ''ign-gazebo-server'' (argv C) ! 0)
                          (child_argv ''ign-gazebo-server'' (argv C)) (fork_server E)])
               @ (if FLAGS_s C then []
                  else [Spawn (child_argv ''ign-gazebo-gui'' (argv C) ! 0)
                          (child_argv ''ign-gazebo-gui'' (argv C)) (fork_gui E)])"
    by blast
  from supervise_unsolicited [OF assms(2-4), of C
      "if FLAGS_g C then stack_serverPid E else fork_server E"
      "if FLAGS_s C then stack_guiPid E else fork_gui E" st2]
  obtain a b where
    t: "trace (snd (main E C)) = trace st2 @ a @ Raise SIGINT # Write SigKilled True # b"
    and sa: "set a \<subseteq> {Write GuiKilled False, Write ServerKilled False, Write SigKilled False,
                      Wait, Write GuiKilled True, Write ServerKilled True}"
    and g: "\<not> FLAGS_s C \<longrightarrow> Kill (if FLAGS_s C then stack_guiPid E else fork_gui E) SIGINT \<in> set b"
    and s: "\<not> FLAGS_g C \<longrightarrow> Kill (if FLAGS_g C then stack_serverPid E else fork_server E) SIGINT \<in> set b"
    unfolding m by blast
  have n2: "Raise SIGINT \<notin> set (trace st2)" "Write SigKilled True \<notin> set (trace st2)"
    unfolding t2 by auto
  have na: "Raise SIGINT \<notin> set a" "Write SigKilled True \<notin> set a"
    using sa by auto
  have "trace (snd (main E C)) = (trace st2 @ a) @ Raise SIGINT # Write SigKilled True # b"
    using t by simp
  moreover have "Raise SIGINT \<notin> set (trace st2 @ a)" using n2 na by simp
  moreover have "Write SigKilled True \<notin> set (trace st2 @ a)" using n2 na by simp
  moreover have "\<not> FLAGS_s C \<longrightarrow> Kill (fork_gui E) SIGINT \<in> set b" using g by simp
  moreover have "\<not> FLAGS_g C \<longrightarrow> Kill (fork_server E) SIGINT \<in> set b" using s by simp
  ultimately show ?thesis by blast
qed

theorem unsolicited_exit_interrupts_children_witness:
  "runs_gazebo plain_cmdline
   \<and> ext_signals prompt_env 0 = 0 \<and> ext_signals prompt_env 1 = 0 \<and> ext_signals prompt_env 2 = 0
   \<and> FLAGS_s plain_cmdline = False \<and> FLAGS_g plain_cmdline = False
   \<and> fork_gui prompt_env = 102 \<and> fork_server prompt_env = 101
   \<and> (\<exists>a b. trace (snd (main prompt_env plain_cmdline))
              = a @ Raise SIGINT # Write SigKilled True # b
          \<and> Kill 102 SIGINT \<in> set b \<and> Kill 101 SIGINT \<in> set b)"
proof -
  have e: "ext_signals prompt_env 0 = 0" "ext_signals prompt_env 1 = 0"
    "ext_signals prompt_env 2 = 0"
    by (simp_all add: prompt_env_def)
  have p: "FLAGS_s plain_cmdline = False" "FLAGS_g plain_cmdline = False"
    "fork_gui prompt_env = 102" "fork_server prompt_env = 101"
    by (simp_all add: plain_cmdline_def prompt_env_def)
  from unsolicited_exit_interrupts_children [OF runs_plain e] show ?thesis
    using runs_plain e p by (simp only: p simp_thms) blast
qed

subsection \<open>The exit code\<close>



subsection \<open>The signal callback\<close>

text \<open>
  Claim C6. An invocation of the callback, from any state, first stores true in
  \<open>sigKilled\<close>, then (unless \<open>-s\<close> is set) runs \<open>KillProcess\<close> on the GUI to its end, then
  (unless \<open>-g\<close> is set) runs \<open>KillProcess\<close> on the server: the events after the GUI's
  interrupt and before the server's belong to the GUI's call only. The flag is true
  when the callback returns. On every run of \<open>main\<close> that reaches the launch the callback
  runs at least once before \<open>main\<close> returns, so that with both children launched the GUI
  and then the server receive \<open>SIGINT\<close>.
\<close>

theorem callback_gui_before_server:
  "(\<exists>rg rs. trace (sig_callback E C gp sp st) =
        trace st @ Write SigKilled True
          # (if FLAGS_s C then [] else Kill gp SIGINT # rg)
          @ (if FLAGS_g C then [] else Kill sp SIGINT # rs)
     \<and> set rg \<subseteq> {Waitpid gp, Sleep, Write GuiKilled True, LogErr ''ign-gazebo-gui'',
                   Kill gp SIGKILL}
     \<and> set rs \<subseteq> {Waitpid sp, Sleep, Write ServerKilled True, LogErr ''ign-gazebo-server'',
                   Kill sp SIGKILL})
   \<and> flags (sig_callback E C gp sp st) SigKilled
   \<and> (runs_gazebo C \<longrightarrow>
        (\<exists>a rg rs c. trace (snd (main E C)) =
           a @ Write SigKilled True
             # (if FLAGS_s C then [] else Kill (fork_gui E) SIGINT # rg)
             @ (if FLAGS_g C then [] else Kill (fork_server E) SIGINT # rs) @ c))"
proof (intro conjI impI)
  show "\<exists>rg rs. trace (sig_callback E C gp sp st) =
        trace st @ Write SigKilled True
          # (if FLAGS_s C then [] else Kill gp SIGINT # rg)
          @ (if FLAGS_g C then [] else Kill sp SIGINT # rs)
     \<and> set rg \<subseteq> {Waitpid gp, Sleep, Write GuiKilled True, LogErr ''ign-gazebo-gui'',
                   Kill gp SIGKILL}
     \<and> set rs \<subseteq> {Waitpid sp, Sleep, Write ServerKilled True, LogErr ''ign-gazebo-server'',
                   Kill sp SIGKILL}"
    by (rule callback_events)
  show "flags (sig_callback E C gp sp st) SigKilled"
    by (rule callback_signaled)
  assume r: "runs_gazebo C"
  define sp' where "sp' = (if FLAGS_g C then stack_serverPid E else fork_server E)"
  define gp' where "gp' = (if FLAGS_s C then stack_guiPid E else fork_gui E)"
  from main_snd [OF r, of E] obtain st2 where
    m: "snd (main E C) = snd (supervise E C sp' gp' st2)"
    unfolding sp'_def gp'_def by blast
  from supervise_callback_ran [of E C sp' gp' st2] obtain sa es where
    t: "trace (snd (main E C)) = trace (sig_callback E C gp' sp' sa) @ es"
    unfolding m by blast
  from callback_events [of E C gp' sp' sa] obtain rg rs where
    c: "trace (sig_callback E C gp' sp' sa) =
        trace sa @ Write SigKilled True
          # (if FLAGS_s C then [] else Kill gp' SIGINT # rg)
          @ (if FLAGS_g C then [] else Kill sp' SIGINT # rs)"
    by blast
  have g: "(if FLAGS_s C then [] else Kill gp' SIGINT # rg)
      = (if FLAGS_s C then [] else Kill (fork_gui E) SIGINT # rg)"
    by (simp add: gp'_def)
  have s: "(if FLAGS_g C then [] else Kill sp' SIGINT # rs)
      = (if FLAGS_g C then [] else Kill (fork_server E) SIGINT # rs)"
    by (simp add: sp'_def)
  have "trace (snd (main E C)) =
           trace sa @ Write SigKilled True
             # (if FLAGS_s C then [] else Kill (fork_gui E) SIGINT # rg)
             @ (if FLAGS_g C then [] else Kill (fork_server E) SIGINT # rs) @ es"
    unfolding t c g s by simp
  then show "\<exists>a rg rs c. trace (snd (main E C)) =
           a @ Write SigKilled True
             # (if FLAGS_s C then [] else Kill (fork_gui E) SIGINT # rg)
             @ (if FLAGS_g C then [] else Kill (fork_server E) SIGINT # rs) @ c"
    by blast
qed

theorem callback_gui_before_server_witness:
  "runs_gazebo plain_cmdline
   \<and> FLAGS_s plain_cmdline = False \<and> FLAGS_g plain_cmdline = False
   \<and> fork_gui prompt_env = 102 \<and> fork_server prompt_env = 101
   \<and> (\<exists>a rg rs c. trace (snd (main prompt_env plain_cmdline)) =
           a @ Write SigKilled True # Kill 102 SIGINT # rg @ Kill 101 SIGINT # rs @ c)
   \<and> trace (sig_callback prompt_env plain_cmdline 102 101 init_state) =
        [Write SigKilled True, Kill 102 SIGINT, Waitpid 102, Write GuiKilled True,
         Kill 101 SIGINT, Waitpid 101, Write ServerKilled True]"
proof -
  have p: "FLAGS_s plain_cmdline = False" "FLAGS_g plain_cmdline = False"
    "fork_gui prompt_env = 102" "fork_server prompt_env = 101"
    by (simp_all add: plain_cmdline_def prompt_env_def)
  have cbt: "trace (sig_callback prompt_env plain_cmdline 102 101 init_state) =
        [Write SigKilled True, Kill 102 SIGINT, Waitpid 102, Write GuiKilled True,
         Kill 101 SIGINT, Waitpid 101, Write ServerKilled True]"
    by code_simp
  from callback_gui_before_server [of prompt_env plain_cmdline 102 101 init_state]
  have "runs_gazebo plain_cmdline \<longrightarrow>
        (\<exists>a rg rs c. trace (snd (main prompt_env plain_cmdline)) =
           a @ Write SigKilled True
             # (if FLAGS_s plain_cmdline then [] else Kill (fork_gui prompt_env) SIGINT # rg)
             @ (if FLAGS_g plain_cmdline then [] else Kill (fork_server prompt_env) SIGINT # rs)
             @ c)"
    by blast
  with runs_plain have "\<exists>a rg rs c. trace (snd (main prompt_env plain_cmdline)) =
           a @ Write SigKilled True # Kill 102 SIGINT # rg @ Kill 101 SIGINT # rs @ c"
    by (simp add: p)
  with runs_plain p cbt show ?thesis by blast
qed

subsection \<open>The flags of the shutdown\<close>

text \<open>
  Claim C7. On every run of \<open>main\<close> that reaches the launch: the values stored in
  \<open>sigKilled\<close> are one false (the initialisation) followed by one or more true, so the
  flag goes from false to true exactly once and is never reset; the values stored in
  \<open>guiKilled\<close> and in \<open>serverKilled\<close> are one false followed by trues only, so each goes
  from false to true at most once and is never reset; the flags on return are those the
  writes of the trace produce; and no \<open>Spawn\<close> event follows a write of true to
  \<open>sigKilled\<close>.
\<close>

theorem shutdown_flags_monotonic:
  assumes "runs_gazebo C"
  shows "(\<exists>k. writes SigKilled (trace (snd (main E C))) = False # replicate (Suc k) True)
    \<and> (\<exists>k. writes GuiKilled (trace (snd (main E C))) = False # replicate k True)
    \<and> (\<exists>k. writes ServerKilled (trace (snd (main E C))) = False # replicate k True)
    \<and> flags (snd (main E C)) = replay (trace (snd (main E C))) (\<lambda>x. False)
    \<and> (\<forall>a b. trace (snd (main E C)) = a @ Write SigKilled True # b
          \<longrightarrow> filter is_spawn b = [])"
proof -
  define sv where "sv = (if FLAGS_g C then []
               else [Spawn (child_argv ''ign-gazebo-server'' (argv C) ! 0)
                       (child_argv ''ign-gazebo-server'' (argv C)) (fork_server E)])"
  define gv where "gv = (if FLAGS_s C then []
               else [Spawn (child_argv ''ign-gazebo-gui'' (argv C) ! 0)
                       (child_argv ''ign-gazebo-gui'' (argv C)) (fork_gui E)])"
  from main_trace [OF assms, of E] obtain v es where
    t: "trace (snd (main E C)) = [SetVerbosity v, LogMsg] @ sv @ gv
            @ [Write GuiKilled False, Write ServerKilled False, Write SigKilled False] @ es"
    and c: "list_all calm es"
    and f: "flags (snd (main E C)) = replay es (\<lambda>x. False)"
    and w: "Write SigKilled True \<in> set es"
    unfolding sv_def gv_def by blast
  have wsv: "writes x sv = []" and wgv: "writes x gv = []" for x
    by (simp_all add: sv_def gv_def)
  have rsv: "replay sv g = g" and rgv: "replay gv g = g" for g
    by (simp_all add: sv_def gv_def)
  have wr: "writes x (trace (snd (main E C))) = False # writes x es" for x
    unfolding t by (cases x) (simp_all add: writes_append wsv wgv)
  have rep: "writes x es = replicate (length (writes x es)) True" for x
    by (rule writes_calm [OF c])
  from writes_mem [OF w] obtain k where k: "length (writes SigKilled es) = Suc k"
    by (cases "writes SigKilled es") auto
  have 1: "\<exists>k. writes SigKilled (trace (snd (main E C))) = False # replicate (Suc k) True"
    using rep [of SigKilled] unfolding wr k by blast
  have 2: "\<exists>k. writes x (trace (snd (main E C))) = False # replicate k True" for x
    using rep [of x] unfolding wr by blast
  have "replay [Write GuiKilled False, Write ServerKilled False, Write SigKilled False]
      (\<lambda>x. False) = (\<lambda>x. False)"
    by (rule ext) simp
  then have "replay ([SetVerbosity v, LogMsg] @ sv @ gv
            @ [Write GuiKilled False, Write ServerKilled False, Write SigKilled False])
      (\<lambda>x. False) = (\<lambda>x. False)"
    by (simp only: replay_append rsv rgv replay_Cons replay_Nil apply_event_simps)
  then have 3: "flags (snd (main E C)) = replay (trace (snd (main E C))) (\<lambda>x. False)"
    unfolding f t by (simp only: replay_append append_assoc [symmetric])
  have 4: "filter is_spawn b = []" if h: "trace (snd (main E C)) = a @ Write SigKilled True # b"
    for a b
  proof -
    have n: "Write SigKilled True \<notin> set ([SetVerbosity v, LogMsg] @ sv @ gv
            @ [Write GuiKilled False, Write ServerKilled False, Write SigKilled False])"
      by (auto simp: sv_def gv_def)
    have e: "([SetVerbosity v, LogMsg] @ sv @ gv
            @ [Write GuiKilled False, Write ServerKilled False, Write SigKilled False]) @ es
          = a @ Write SigKilled True # b"
      using h unfolding t by simp
    from suffix_after [OF e n] obtain d where "es = d @ Write SigKilled True # b" ..
    with c have "list_all calm b" by simp
    then show ?thesis by (rule calm_no_spawn)
  qed
  show ?thesis
  proof (intro conjI allI impI)
    show "\<exists>k. writes SigKilled (trace (snd (main E C))) = False # replicate (Suc k) True"
      by (rule 1)
    show "\<exists>k. writes GuiKilled (trace (snd (main E C))) = False # replicate k True"
      by (rule 2)
    show "\<exists>k. writes ServerKilled (trace (snd (main E C))) = False # replicate k True"
      by (rule 2)
    show "flags (snd (main E C)) = replay (trace (snd (main E C))) (\<lambda>x. False)"
      by (rule 3)
    show "filter is_spawn b = []" if "trace (snd (main E C)) = a @ Write SigKilled True # b"
      for a b
      using that by (rule 4)
  qed
qed

theorem shutdown_flags_monotonic_witness:
  "runs_gazebo plain_cmdline
   \<and> trace (snd (main prompt_env plain_cmdline)) =
       [SetVerbosity 1, LogMsg,
        Spawn (Ptr ''ign-gazebo-server'')
         [Ptr ''ign-gazebo-server'', Ptr ''-f'', Ptr ''shapes.sdf'', Nullptr] 101,
        Spawn (Ptr ''ign-gazebo-gui'')
         [Ptr ''ign-gazebo-gui'', Ptr ''-f'', Ptr ''shapes.sdf'', Nullptr] 102,
        Write GuiKilled False, Write ServerKilled False,
        Write SigKilled False, Wait, Write ServerKilled True, Raise SIGINT]
       @ Write SigKilled True
         # [Kill 102 SIGINT, Waitpid 102, Write GuiKilled True, Kill 101 SIGINT, LogDbg]
   \<and> (\<exists>k. writes SigKilled (trace (snd (main prompt_env plain_cmdline)))
           = False # replicate (Suc k) True)
   \<and> filter is_spawn
        [Kill 102 SIGINT, Waitpid 102, Write GuiKilled True, Kill 101 SIGINT, LogDbg] = []"
proof -
  have t: "trace (snd (main prompt_env plain_cmdline)) =
       [SetVerbosity 1, LogMsg,
        Spawn (Ptr ''ign-gazebo-server'')
         [Ptr ''ign-gazebo-server'', Ptr ''-f'', Ptr ''shapes.sdf'', Nullptr] 101,
        Spawn (Ptr ''ign-gazebo-gui'')
         [Ptr ''ign-gazebo-gui'', Ptr ''-f'', Ptr ''shapes.sdf'', Nullptr] 102,
        Write GuiKilled False, Write ServerKilled False,
        Write SigKilled False, Wait, Write ServerKilled True, Raise SIGINT]
       @ Write SigKilled True
         # [Kill 102 SIGINT, Waitpid 102, Write GuiKilled True, Kill 101 SIGINT, LogDbg]"
    unfolding trace_plain by simp
  note c7 = shutdown_flags_monotonic [OF runs_plain, of prompt_env]
  from c7 have "\<exists>k. writes SigKilled (trace (snd (main prompt_env plain_cmdline)))
           = False # replicate (Suc k) True"
    by (rule conjunct1)
  moreover from c7 t have "filter is_spawn
        [Kill 102 SIGINT, Waitpid 102, Write GuiKilled True, Kill 101 SIGINT, LogDbg] = []"
    by blast
  ultimately show ?thesis using runs_plain t by blast
qed

subsection \<open>The verbosity\<close>

text \<open>
  Claim C8. \<open>VerbosityValidator\<close> accepts exactly the five values 0 to 4 of a 32-bit
  signed integer. \<open>main\<close> ends with the validation failure of the parse exactly when the
  value of \<open>--verbose\<close> or of \<open>-v\<close> is outside these, and then its trace is empty: nothing
  was spawned (and nothing printed) before the rejection.
\<close>

theorem verbosity_validated_at_parse:
  "(VerbosityValidator name v \<longleftrightarrow> v \<in> {0, 1, 2, 3, 4})
   \<and> (fst (main E C) = Inl ValidationFailure
        \<longleftrightarrow> \<not> (FLAGS_verbose C \<in> {0, 1, 2, 3, 4} \<and> FLAGS_v C \<in> {0, 1, 2, 3, 4}))
   \<and> (fst (main E C) = Inl ValidationFailure \<longrightarrow> trace (snd (main E C)) = [])"
proof (intro conjI)
  show "VerbosityValidator name v \<longleftrightarrow> v \<in> {0, 1, 2, 3, 4}"
    by (rule VerbosityValidator_iff)
  show "fst (main E C) = Inl ValidationFailure
        \<longleftrightarrow> \<not> (FLAGS_verbose C \<in> {0, 1, 2, 3, 4} \<and> FLAGS_v C \<in> {0, 1, 2, 3, 4})"
    unfolding main_fail_iff by (simp only: VerbosityValidator_iff)
  show "fst (main E C) = Inl ValidationFailure \<longrightarrow> trace (snd (main E C)) = []"
    by (simp add: main_def ParseCommandLineNonHelpFlags_def Let_def init_state_def
          split: prod.splits)
qed

theorem verbosity_validated_at_parse_witness:
  "fst (main prompt_env (plain_cmdline\<lparr>FLAGS_v := 5, v_is_default := False\<rparr>))
      = Inl ValidationFailure
   \<and> trace (snd (main prompt_env (plain_cmdline\<lparr>FLAGS_v := 5, v_is_default := False\<rparr>))) = []
   \<and> fst (main prompt_env (plain_cmdline\<lparr>FLAGS_verbose := - 1, verbose_is_default := False\<rparr>))
      = Inl ValidationFailure
   \<and> \<not> VerbosityValidator ''v'' (- 1) \<and> \<not> VerbosityValidator ''v'' 5
   \<and> VerbosityValidator ''v'' 0 \<and> VerbosityValidator ''v'' 1 \<and> VerbosityValidator ''v'' 2
   \<and> VerbosityValidator ''v'' 3 \<and> VerbosityValidator ''v'' 4"
  using verbosity_validated_at_parse [of "''v''" 5 prompt_env "plain_cmdline\<lparr>FLAGS_v := 5, v_is_default := False\<rparr>"]
    verbosity_validated_at_parse [of "''v''" "- 1" prompt_env
      "plain_cmdline\<lparr>FLAGS_verbose := - 1, verbose_is_default := False\<rparr>"]
    verbosity_validated_at_parse [of "''v''" 0] verbosity_validated_at_parse [of "''v''" 1] verbosity_validated_at_parse [of "''v''" 2] verbosity_validated_at_parse [of "''v''" 3]
    verbosity_validated_at_parse [of "''v''" 4]
  by (simp add: plain_cmdline_def)

subsection \<open>The argument vectors\<close>

text \<open>
  Claim C9. The array built for a child from the argument vector \<open>av\<close> is \<open>av\<close> with
  element 0 replaced by the child's executable name, followed by the null pointer;
  the server's and the GUI's arrays agree from index 1 on; and every \<open>Spawn\<close> event of
  every run of \<open>main\<close> carries such an array for \<open>ign-gazebo-server\<close> or for
  \<open>ign-gazebo-gui\<close>, with the file to execute its element 0.
\<close>

theorem child_argv_replaces_index_0:
  "child_argv name av = (map Ptr av)[0 := Ptr name] @ [Nullptr]
   \<and> tl (child_argv ''ign-gazebo-server'' av) = tl (child_argv ''ign-gazebo-gui'' av)
   \<and> (\<forall>f a p. Spawn f a p \<in> set (trace (snd (main E C))) \<longrightarrow>
         f = a ! 0
         \<and> (a = (map Ptr (argv C))[0 := Ptr ''ign-gazebo-server''] @ [Nullptr]
            \<or> a = (map Ptr (argv C))[0 := Ptr ''ign-gazebo-gui''] @ [Nullptr]))"
proof (intro conjI allI impI)
  show "child_argv name av = (map Ptr av)[0 := Ptr name] @ [Nullptr]"
    by (rule child_argv_eq)
  show "tl (child_argv ''ign-gazebo-server'' av) = tl (child_argv ''ign-gazebo-gui'' av)"
    by (cases av) (simp_all add: child_argv_eq)
  fix f a p
  assume m: "Spawn f a p \<in> set (trace (snd (main E C)))"
  have r: "runs_gazebo C"
  proof (rule ccontr)
    assume "\<not> runs_gazebo C"
    from main_not_runs [OF this, of E] m show False by auto
  qed
  from m have "Spawn f a p \<in> set (filter is_spawn (trace (snd (main E C))))"
    by simp
  then have "Spawn f a p = Spawn (child_argv ''ign-gazebo-server'' (argv C) ! 0)
                       (child_argv ''ign-gazebo-server'' (argv C)) (fork_server E)
      \<or> Spawn f a p = Spawn (child_argv ''ign-gazebo-gui'' (argv C) ! 0)
                       (child_argv ''ign-gazebo-gui'' (argv C)) (fork_gui E)"
    unfolding main_spawns [OF r] by (auto split: if_splits)
  then have d: "f = a ! 0 \<and> (a = child_argv ''ign-gazebo-server'' (argv C)
      \<or> a = child_argv ''ign-gazebo-gui'' (argv C))"
    by auto
  from d show "f = a ! 0" ..
  from d show "a = (map Ptr (argv C))[0 := Ptr ''ign-gazebo-server''] @ [Nullptr]
            \<or> a = (map Ptr (argv C))[0 := Ptr ''ign-gazebo-gui''] @ [Nullptr]"
    by (simp only: child_argv_eq)
qed

theorem child_argv_replaces_index_0_witness:
  "Spawn (Ptr ''ign-gazebo-gui'')
      [Ptr ''ign-gazebo-gui'', Ptr ''-f'', Ptr ''shapes.sdf'', Nullptr] 102
     \<in> set (trace (snd (main prompt_env plain_cmdline)))
   \<and> argv plain_cmdline = [''ign-gazebo'', ''-f'', ''shapes.sdf'']
   \<and> [Ptr ''ign-gazebo-gui'', Ptr ''-f'', Ptr ''shapes.sdf'', Nullptr]
       = (map Ptr (argv plain_cmdline))[0 := Ptr ''ign-gazebo-gui''] @ [Nullptr]
   \<and> child_argv ''ign-gazebo-server'' [''ign-gazebo'', ''-f'', ''shapes.sdf'']
       = [Ptr ''ign-gazebo-server'', Ptr ''-f'', Ptr ''shapes.sdf'', Nullptr]"
  using child_argv_replaces_index_0 [of "''ign-gazebo-server''" "[''ign-gazebo'', ''-f'', ''shapes.sdf'']"
      prompt_env plain_cmdline]
  by (simp add: trace_plain) (simp add: plain_cmdline_def)

subsection \<open>Help and version\<close>

text \<open>
  Claim C10. When the command line passes the validation of the parse, asks for help
  (\<open>-h\<close> or \<open>--help\<close>) and sets \<open>--version\<close> too, \<open>main\<close> returns 0 and its whole trace is
  the help text: the version is not printed and no child is spawned.
\<close>

theorem help_precedes_version:
  assumes "VerbosityValidator ''verbose'' (FLAGS_verbose C)"
    and "VerbosityValidator ''v'' (FLAGS_v C)"
    and "FLAGS_h C \<or> help_value C = ''true''"
    and "version_value C = ''true''"
  shows "fst (main E C) = Inr 0 \<and> trace (snd (main E C)) = [HelpText]"
  using assms
  by (auto simp: main_def ParseCommandLineNonHelpFlags_def Let_def init_state_def)

theorem help_precedes_version_witness:
  "VerbosityValidator ''verbose'' (FLAGS_verbose (plain_cmdline\<lparr>FLAGS_h := True, version_value := ''true''\<rparr>))
   \<and> VerbosityValidator ''v'' (FLAGS_v (plain_cmdline\<lparr>FLAGS_h := True, version_value := ''true''\<rparr>))
   \<and> FLAGS_h (plain_cmdline\<lparr>FLAGS_h := True, version_value := ''true''\<rparr>)
   \<and> version_value (plain_cmdline\<lparr>FLAGS_h := True, version_value := ''true''\<rparr>) = ''true''
   \<and> fst (main prompt_env (plain_cmdline\<lparr>FLAGS_h := True, version_value := ''true''\<rparr>)) = Inr 0
   \<and> trace (snd (main prompt_env (plain_cmdline\<lparr>FLAGS_h := True, version_value := ''true''\<rparr>)))
       = [HelpText]"
  using help_precedes_version [of "plain_cmdline\<lparr>FLAGS_h := True, version_value := ''true''\<rparr>" prompt_env]
  by (simp add: plain_cmdline_def VerbosityValidator_def)

end
